theory Spec2Isabelle
  imports Main
begin

section \<open>The token registry of \<open>src/lib/stores/tokens/tokens.store.ts\<close>\<close>

subsection \<open>Data model\<close>

text \<open>
  \<open>TokenInfo\<close> is the descriptor type of the token-list package, with the fields the
  specification lists for a descriptor; the store reads \<open>chainId\<close>, \<open>address\<close> and
  \<open>symbol\<close>. Chain ids and decimals are integral JavaScript numbers.
\<close>

record TokenInfo =
  chainId :: int
  address :: string
  name :: string
  decimals :: int
  symbol :: string
  logoURI :: "string option"

text \<open>
  \<open>TokenInfoWrapper = DefaultTokenInfoWrapper | CustomTokenInfoWrapper\<close>: the tag
  \<open>source\<close> is the constructor, and only a custom wrapper carries \<open>banned\<close>.
\<close>

datatype TokenInfoWrapper =
    Default (info: TokenInfo)
  | Custom (info: TokenInfo) (banned: bool)

fun source :: "TokenInfoWrapper \<Rightarrow> string" where
  "source (Default _) = ''default''"
| "source (Custom _ _) = ''custom''"

text \<open>
  A \<open>CustomTokenInfoWrapper\<close> on its own (what the persistence module stores and
  returns) is the pair of its \<open>info\<close> and \<open>banned\<close> fields; its \<open>source\<close> is
  always \<open>'custom'\<close>.
\<close>

type_synonym CustomTokenInfoWrapper = "TokenInfo \<times> bool"

definition wrapCustom :: "CustomTokenInfoWrapper \<Rightarrow> TokenInfoWrapper" where
  "wrapCustom c = Custom (fst c) (snd c)"

text \<open>
  Modelled from the spec: the helper \<open>assert\<close> of \<open>$lib/utils/assert\<close> is not among
  the sources. By the specification a failed assertion is a precondition failure raised
  at the point of violation, and the other source file catches what \<open>assert\<close> throws;
  so \<open>assert(c, message)\<close> returns when \<open>c\<close> is truthy and throws an \<open>Error\<close> with the
  message otherwise. The specification names the two kinds: \<open>AlreadyExists\<close> is
  \<open>'This custom token already exists'\<close>, \<open>NotFound\<close> is
  \<open>'Unable to find custom token with address ...'\<close>. \<open>SyntaxError\<close> is what
  \<open>BigInt(string)\<close> throws on a string that is no integer.
\<close>

datatype error = AlreadyExists | NotFound | SyntaxError

text \<open>How a call of a mutating operation ends: it returns, or it throws.\<close>

datatype outcome = Returned | Threw error

subsection \<open>The environment of the store\<close>

text \<open>
  Everything the module imports is a parameter: the \<open>browser\<close> flag of the host, the
  token list of the default catalogue (\<open>uniswapTokenList.tokens\<close>), the four
  functions of the persistence module \<open>stored-custom-tokens\<close> acting on a durable
  store of type \<open>'s\<close>, the built-in \<open>String.prototype.toLowerCase\<close> (the case mapping
  of the JavaScript engine), the built-in \<open>BigInt\<close> conversion of a string (\<open>None\<close>
  when it throws) and the asset-id resolver \<open>Utils.Asset.getAddressFromId\<close>, a pure
  function.
  The persistence functions are synchronous and are taken to return: a failure of the
  durable store itself is outside the model. A JavaScript string is a \<open>string\<close> here
  (its encoding), so \<open>===\<close> on strings is equality, and \<open>toLowerCase\<close> stands for the
  engine's mapping on that representation; every general property holds whatever
  that mapping is.
\<close>

record 's env =
  browser :: bool
  uniswapTokens :: "TokenInfo list"
  readCustomTokensList :: "'s \<Rightarrow> CustomTokenInfoWrapper list"
  createCustomToken :: "TokenInfo \<Rightarrow> 's \<Rightarrow> 's"
  deleteCustomToken :: "CustomTokenInfoWrapper \<Rightarrow> 's \<Rightarrow> 's"
  updateCustomToken :: "string \<Rightarrow> CustomTokenInfoWrapper \<Rightarrow> 's \<Rightarrow> 's"
  toLowerCase :: "string \<Rightarrow> string"
  BigInt :: "string \<Rightarrow> int option"
  getAddressFromId :: "int \<Rightarrow> string"

text \<open>
  The state of the module: the closure variable \<open>chainId\<close>, the two writable stores
  \<open>tokenList\<close> and \<open>connected\<close>, and the durable store behind the persistence module.
\<close>

record 's state =
  chainId_var :: "int option"
  tokenList :: "TokenInfoWrapper list option"
  connected :: bool
  storage :: 's

subsection \<open>JavaScript library functions\<close>

text \<open>
  \<open>Array.prototype.find\<close> is \<^const>\<open>List.find\<close>. The variant below is \<open>find\<close> with a
  callback that may throw: the exception leaves \<open>find\<close> at the first element it is
  raised on, and an empty array never calls the callback.
\<close>

fun find_throwing :: "('a \<Rightarrow> error + bool) \<Rightarrow> 'a list \<Rightarrow> error + 'a option" where
  "find_throwing p [] = Inr None"
| "find_throwing p (x # xs) =
     (case p x of
        Inl e \<Rightarrow> Inl e
      | Inr True \<Rightarrow> Inr (Some x)
      | Inr False \<Rightarrow> find_throwing p xs)"

text \<open>
  \<open>Array.prototype.indexOf\<close>: the first index holding the element, \<open>-1\<close> when there is
  none. JavaScript compares objects by identity; the element looked for below is the
  one \<open>find\<close> returned from the same array, and every element structurally equal to it
  satisfies the predicate of that \<open>find\<close>, so the first equal element is that object.
\<close>

fun indexOf :: "'a list \<Rightarrow> 'a \<Rightarrow> int" where
  "indexOf [] y = -1"
| "indexOf (x # xs) y =
     (if x = y then 0 else (let i = indexOf xs y in if i < 0 then -1 else i + 1))"

text \<open>
  \<open>Array.prototype.splice(start, deleteCount, ...items)\<close>: a negative \<open>start\<close> counts
  from the end, and both \<open>start\<close> and \<open>deleteCount\<close> are clamped to the array.
\<close>

definition splice :: "'a list \<Rightarrow> int \<Rightarrow> nat \<Rightarrow> 'a list \<Rightarrow> 'a list" where
  "splice xs start deleteCount items =
     (let len = int (length xs);
          k = nat (if start < 0 then max (len + start) 0 else min start len);
          dc = min deleteCount (length xs - k)
      in take k xs @ items @ drop (k + dc) xs)"

subsection \<open>Lifecycle\<close>

definition connect :: "'s env \<Rightarrow> int \<Rightarrow> 's state \<Rightarrow> 's state" where
  "connect E toChainId s =
     (let customTokens =
            (if browser E
             then filter (\<lambda>t. chainId (fst t) = toChainId)
                    (readCustomTokensList E (storage s))
             else []);
          defaultTokens =
            map Default (filter (\<lambda>t. chainId t = toChainId) (uniswapTokens E))
      in s\<lparr>chainId_var := Some toChainId,
           tokenList := Some (defaultTokens @ map wrapCustom customTokens),
           connected := True\<rparr>)"

definition disconnect :: "'s state \<Rightarrow> 's state" where
  "disconnect s = s\<lparr>chainId_var := None, tokenList := None, connected := False\<rparr>"

subsection \<open>Lookups\<close>

text \<open>
  The parameter \<open>chain\<close> is optional (\<open>chain = chainId\<close>): \<open>None\<close> is the omitted
  argument, which takes the closure variable, itself undefined while disconnected.
  The comparison \<open>t.info.chainId === chain\<close> is false for an undefined \<open>chain\<close>.
\<close>

definition chainArg :: "'s state \<Rightarrow> int option \<Rightarrow> int option" where
  "chainArg s chain = (case chain of None \<Rightarrow> chainId_var s | Some c \<Rightarrow> Some c)"

definition getByAddress ::
  "'s env \<Rightarrow> 's state \<Rightarrow> string \<Rightarrow> int option \<Rightarrow> TokenInfoWrapper option" where
  "getByAddress E s addr chain =
     (case tokenList s of
        None \<Rightarrow> None
      | Some tokens \<Rightarrow>
          List.find (\<lambda>t.
            let addressMatch = (toLowerCase E (address (info t)) = toLowerCase E addr);
                chainIdMatch = (Some (chainId (info t)) = chainArg s chain)
            in addressMatch \<and> chainIdMatch) tokens)"

definition getBySymbol ::
  "'s env \<Rightarrow> 's state \<Rightarrow> string \<Rightarrow> int option \<Rightarrow> TokenInfoWrapper option" where
  "getBySymbol E s symb chain =
     (case tokenList s of
        None \<Rightarrow> None
      | Some tokens \<Rightarrow>
          List.find (\<lambda>t.
            let symbolMatch = (toLowerCase E (symbol (info t)) = toLowerCase E symb);
                chainIdMatch = (Some (chainId (info t)) = chainArg s chain)
            in symbolMatch \<and> chainIdMatch) tokens)"

text \<open>
  \<open>getByDripsAssetId\<close> converts the id inside the callback of \<open>find\<close>, once for each
  element visited, so a string that \<open>BigInt\<close> rejects throws only when there is an
  element to visit.
\<close>

definition getByDripsAssetId ::
  "'s env \<Rightarrow> 's state \<Rightarrow> string \<Rightarrow> int option \<Rightarrow> error + TokenInfoWrapper option" where
  "getByDripsAssetId E s dripsAssetId chain =
     (case tokenList s of
        None \<Rightarrow> Inr None
      | Some tokens \<Rightarrow>
          find_throwing (\<lambda>t.
            case BigInt E dripsAssetId of
              None \<Rightarrow> Inl SyntaxError
            | Some n \<Rightarrow>
                (let assetAddress = getAddressFromId E n;
                     addressMatch =
                       (toLowerCase E (address (info t)) = toLowerCase E assetAddress);
                     chainIdMatch = (Some (chainId (info t)) = chainArg s chain)
                 in Inr (addressMatch \<and> chainIdMatch))) tokens)"

text \<open>The predicate of the scan by address, with the chain argument resolved.\<close>

definition matchesAddress ::
  "'s env \<Rightarrow> string \<Rightarrow> int option \<Rightarrow> TokenInfoWrapper \<Rightarrow> bool" where
  "matchesAddress E addr chain t =
     (toLowerCase E (address (info t)) = toLowerCase E addr \<and> Some (chainId (info t)) = chain)"

subsection \<open>Custom tokens\<close>

text \<open>
  Each operation returns how the call ended together with the state at that moment:
  a failed assertion throws before anything was written.
\<close>

definition addCustomToken :: "'s env \<Rightarrow> TokenInfo \<Rightarrow> 's state \<Rightarrow> outcome \<times> 's state" where
  "addCustomToken E tokenInfo s =
     (case tokenList s of
        None \<Rightarrow> (Returned, s)
      | Some tokens \<Rightarrow>
          if List.find (\<lambda>t. address (info t) = address tokenInfo) tokens \<noteq> None
          then (Threw AlreadyExists, s)
          else
            (let s1 = s\<lparr>storage := createCustomToken E tokenInfo (storage s)\<rparr>
             in if Some (chainId tokenInfo) \<noteq> chainId_var s1 then (Returned, s1)
                else (Returned,
                      s1\<lparr>tokenList := Some (tokens @ [Custom tokenInfo False])\<rparr>)))"

definition removeCustomToken ::
  "'s env \<Rightarrow> string \<Rightarrow> int \<Rightarrow> 's state \<Rightarrow> outcome \<times> 's state" where
  "removeCustomToken E addr chain s =
     (case tokenList s of
        None \<Rightarrow> (Returned, s)
      | Some tokens \<Rightarrow>
          (case getByAddress E s addr (Some chain) of
             None \<Rightarrow> (Threw NotFound, s)
           | Some (Default i) \<Rightarrow> (Threw NotFound, s)
           | Some (Custom i b) \<Rightarrow>
               (let s1 = s\<lparr>storage := deleteCustomToken E (i, b) (storage s)\<rparr>;
                    tokens' = filter (\<lambda>v. toLowerCase E (address (info v))
                                            \<noteq> toLowerCase E (address i)) tokens
                in (Returned, s1\<lparr>tokenList := Some tokens'\<rparr>))))"

definition setCustomTokenBanStatus ::
  "'s env \<Rightarrow> string \<Rightarrow> int \<Rightarrow> bool \<Rightarrow> 's state \<Rightarrow> outcome \<times> 's state" where
  "setCustomTokenBanStatus E addr chain newBanned s =
     (case tokenList s of
        None \<Rightarrow> (Returned, s)
      | Some tokens \<Rightarrow>
          (case getByAddress E s addr (Some chain) of
             None \<Rightarrow> (Threw NotFound, s)
           | Some (Default i) \<Rightarrow> (Threw NotFound, s)
           | Some (Custom i b) \<Rightarrow>
               (let newValue = Custom i newBanned;
                    s1 = s\<lparr>storage := updateCustomToken E addr (i, newBanned) (storage s)\<rparr>;
                    tokens' = splice tokens (indexOf tokens (Custom i b)) 1 [newValue]
                in (Returned, s1\<lparr>tokenList := Some tokens'\<rparr>))))"

subsection \<open>Sequences of calls\<close>

text \<open>
  A client calls the three mutating operations in any order. A call that throws leaves
  the state as it was when the exception was raised.
\<close>

datatype call =
    AddCustomToken TokenInfo
  | RemoveCustomToken string int
  | SetCustomTokenBanStatus string int bool

fun perform :: "'s env \<Rightarrow> call \<Rightarrow> 's state \<Rightarrow> 's state" where
  "perform E (AddCustomToken tokenInfo) s = snd (addCustomToken E tokenInfo s)"
| "perform E (RemoveCustomToken addr chain) s = snd (removeCustomToken E addr chain s)"
| "perform E (SetCustomTokenBanStatus addr chain b) s =
     snd (setCustomTokenBanStatus E addr chain b s)"

fun performAll :: "'s env \<Rightarrow> call list \<Rightarrow> 's state \<Rightarrow> 's state" where
  "performAll E [] s = s"
| "performAll E (c # cs) s = performAll E cs (perform E c s)"

subsection \<open>Properties of the entry list\<close>

text \<open>The identity of an entry: its address in lower case, and its chain.\<close>

definition entryKey :: "'s env \<Rightarrow> TokenInfoWrapper \<Rightarrow> string \<times> int" where
  "entryKey E t = (toLowerCase E (address (info t)), chainId (info t))"

definition uniqueKeys :: "'s env \<Rightarrow> TokenInfoWrapper list \<Rightarrow> bool" where
  "uniqueKeys E ts = distinct (map (entryKey E) ts)"

text \<open>Every entry is on chain \<open>C\<close>.\<close>

definition onChain :: "int \<Rightarrow> TokenInfoWrapper list \<Rightarrow> bool" where
  "onChain C ts = list_all (\<lambda>t. chainId (info t) = C) ts"

text \<open>No default entry comes after a custom entry.\<close>

definition defaultsFirst :: "TokenInfoWrapper list \<Rightarrow> bool" where
  "defaultsFirst ts =
     sorted_wrt (\<lambda>a b. a = ''custom'' \<longrightarrow> b = ''custom'') (map source ts)"

definition defaultsOf :: "TokenInfoWrapper list \<Rightarrow> TokenInfoWrapper list" where
  "defaultsOf ts = filter (\<lambda>t. source t = ''default'') ts"


subsection \<open>The persistence module\<close>

text \<open>
  Modelled from the spec: the module \<open>stored-custom-tokens\<close> (the Persistence Adapter)
  is imported by the store and is not among the sources. The specification describes
  it as a durable store for custom token entries, keyed by address and chain:
  \<open>readCustomTokensList\<close> returns the sequence of \<open>{descriptor, banned}\<close> records with
  no chain filter, \<open>createCustomToken\<close> persists the descriptor as a new custom entry,
  \<open>deleteCustomToken\<close> deletes the entry, and \<open>updateCustomToken\<close> writes the updated
  record. The durable store is the sequence of its records.
\<close>

type_synonym durable = "CustomTokenInfoWrapper list"

definition specRead :: "durable \<Rightarrow> CustomTokenInfoWrapper list" where
  "specRead st = st"

definition specCreate :: "TokenInfo \<Rightarrow> durable \<Rightarrow> durable" where
  "specCreate d st = st @ [(d, False)]"

definition specDelete :: "CustomTokenInfoWrapper \<Rightarrow> durable \<Rightarrow> durable" where
  "specDelete c st =
     filter (\<lambda>e. \<not> (address (fst e) = address (fst c) \<and> chainId (fst e) = chainId (fst c))) st"

definition specUpdate :: "string \<Rightarrow> CustomTokenInfoWrapper \<Rightarrow> durable \<Rightarrow> durable" where
  "specUpdate addr c st =
     map (\<lambda>e. if address (fst e) = addr \<and> chainId (fst e) = chainId (fst c) then c else e) st"

definition specEnv ::
  "bool \<Rightarrow> TokenInfo list \<Rightarrow> (string \<Rightarrow> string) \<Rightarrow> (string \<Rightarrow> int option) \<Rightarrow>
     (int \<Rightarrow> string) \<Rightarrow> durable env" where
  "specEnv b catalogue lower bigInt resolver =
     \<lparr>browser = b, uniswapTokens = catalogue,
      readCustomTokensList = specRead, createCustomToken = specCreate,
      deleteCustomToken = specDelete, updateCustomToken = specUpdate,
      toLowerCase = lower, BigInt = bigInt, getAddressFromId = resolver\<rparr>"

text \<open>
  A connected state on chain \<open>C\<close> as \<open>connect\<close> and the three operations keep it: every
  entry is on \<open>C\<close>, and the defaults come first.
\<close>

definition wellFormed :: "int \<Rightarrow> 's state \<Rightarrow> bool" where
  "wellFormed C s =
     (chainId_var s = Some C \<and>
      (case tokenList s of None \<Rightarrow> False | Some ts \<Rightarrow> onChain C ts \<and> defaultsFirst ts))"


text \<open>The state of the module before the first \<open>connect\<close>, over a given durable store.\<close>

definition initial :: "'s \<Rightarrow> 's state" where
  "initial st = \<lparr>chainId_var = None, tokenList = None, connected = False, storage = st\<rparr>"

subsection \<open>Examples\<close>

text \<open>
  The lower-casing of the example environment. The strings of the examples are ASCII,
  and on an ASCII string \<open>String.prototype.toLowerCase\<close> maps \<open>A\<close> to \<open>Z\<close> to \<open>a\<close> to \<open>z\<close>
  and keeps every other character. No general property below depends on it.
\<close>

definition asciiLowerChar :: "char \<Rightarrow> char" where
  "asciiLowerChar c =
     (case map_of (zip ''ABCDEFGHIJKLMNOPQRSTUVWXYZ'' ''abcdefghijklmnopqrstuvwxyz'') c of
        None \<Rightarrow> c
      | Some d \<Rightarrow> d)"

definition asciiLowerCase :: "string \<Rightarrow> string" where
  "asciiLowerCase s = map asciiLowerChar s"

definition exFoo :: TokenInfo where
  "exFoo = \<lparr>chainId = 1, address = ''0xAAA'', name = ''Foo'', decimals = 18,
            symbol = ''FOO'', logoURI = None\<rparr>"

definition exFooLower :: TokenInfo where
  "exFooLower = \<lparr>chainId = 1, address = ''0xaaa'', name = ''Foo'', decimals = 18,
                 symbol = ''FOO'', logoURI = None\<rparr>"

definition exBar :: TokenInfo where
  "exBar = \<lparr>chainId = 1, address = ''0xBBB'', name = ''Bar'', decimals = 18,
            symbol = ''BAR'', logoURI = None\<rparr>"

definition exBaz :: TokenInfo where
  "exBaz = \<lparr>chainId = 2, address = ''0xCCC'', name = ''Baz'', decimals = 6,
            symbol = ''BAZ'', logoURI = None\<rparr>"

text \<open>An environment over the persistence model with the catalogue \<open>[exFoo]\<close>.\<close>

definition exEnv :: "durable env" where
  "exEnv =
     specEnv True [exFoo] asciiLowerCase (\<lambda>s. if s = ''5'' then Some 5 else None)
       (\<lambda>n. ''0xBBB'')"

text \<open>The same environment outside a browser, as on the rendering server.\<close>

definition exServerEnv :: "durable env" where
  "exServerEnv =
     specEnv False [exFoo] asciiLowerCase (\<lambda>s. if s = ''5'' then Some 5 else None)
       (\<lambda>n. ''0xBBB'')"

section \<open>Properties\<close>

text \<open>The definitions that evaluate the examples.\<close>

lemmas example_defs =
  exEnv_def exServerEnv_def specEnv_def specRead_def specCreate_def specDelete_def
  specUpdate_def initial_def exFoo_def exFooLower_def exBar_def exBaz_def wrapCustom_def

lemmas operation_defs =
  connect_def disconnect_def getByAddress_def getBySymbol_def addCustomToken_def
  removeCustomToken_def setCustomTokenBanStatus_def chainArg_def splice_def
  asciiLowerCase_def asciiLowerChar_def Let_def

subsection \<open>The scans\<close>

lemma getByAddress_find:
  "getByAddress E s addr chain =
     (case tokenList s of None \<Rightarrow> None
      | Some ts \<Rightarrow> List.find (matchesAddress E addr (chainArg s chain)) ts)"
  by (simp add: getByAddress_def matchesAddress_def [abs_def] Let_def split: option.splits)

subsection \<open>The disconnected store\<close>

text \<open>
  Claim C4. While the store is disconnected (\<open>tokenList\<close> holds no list), the three
  lookups return not-found, the asset-id lookup without converting its argument, and
  the three mutating operations return without an error and leave the whole state,
  the durable store included, as it was.
\<close>

theorem disconnected_lookups_and_mutations:
  "tokenList s = None \<Longrightarrow>
     getByAddress E s addr chain = None \<and>
     getBySymbol E s symb chain = None \<and>
     getByDripsAssetId E s dripsAssetId chain = Inr None \<and>
     addCustomToken E tokenInfo s = (Returned, s) \<and>
     removeCustomToken E addr c s = (Returned, s) \<and>
     setCustomTokenBanStatus E addr c b s = (Returned, s)"
  by (simp add: getByAddress_def getBySymbol_def getByDripsAssetId_def addCustomToken_def
      removeCustomToken_def setCustomTokenBanStatus_def)

theorem disconnected_lookups_and_mutations_witness:
  "tokenList (disconnect (connect exEnv 1 (initial [(exBar, False)]))) = None \<and>
   getByAddress exEnv (disconnect (connect exEnv 1 (initial [(exBar, False)]))) ''0xAAA'' (Some 1)
     = None \<and>
   getBySymbol exEnv (disconnect (connect exEnv 1 (initial [(exBar, False)]))) ''FOO'' (Some 1)
     = None \<and>
   getByDripsAssetId exEnv (disconnect (connect exEnv 1 (initial [(exBar, False)])))
       ''not a number'' (Some 1)
     = Inr None \<and>
   addCustomToken exEnv exBaz (disconnect (connect exEnv 1 (initial [(exBar, False)])))
     = (Returned, disconnect (connect exEnv 1 (initial [(exBar, False)]))) \<and>
   removeCustomToken exEnv ''0xBBB'' 1 (disconnect (connect exEnv 1 (initial [(exBar, False)])))
     = (Returned, disconnect (connect exEnv 1 (initial [(exBar, False)]))) \<and>
   setCustomTokenBanStatus exEnv ''0xBBB'' 1 True
       (disconnect (connect exEnv 1 (initial [(exBar, False)])))
     = (Returned, disconnect (connect exEnv 1 (initial [(exBar, False)])))"
proof -
  have h: "tokenList (disconnect (connect exEnv 1 (initial [(exBar, False)]))) = None"
    by (simp add: disconnect_def)
  show ?thesis
    using h
      disconnected_lookups_and_mutations
        [OF h, where E=exEnv and addr="''0xAAA''" and chain="Some 1" and symb="''FOO''"
           and dripsAssetId="''not a number''" and tokenInfo=exBaz and c=1 and b=True]
      disconnected_lookups_and_mutations
        [OF h, where E=exEnv and addr="''0xBBB''" and chain="Some 1" and symb="''FOO''"
           and dripsAssetId="''not a number''" and tokenInfo=exBaz and c=1 and b=True]
    by simp
qed

subsection \<open>Adding a custom token\<close>

lemma addCustomToken_connected:
  "tokenList s = Some ts \<Longrightarrow>
     addCustomToken E d s =
       (if \<exists>t\<in>set ts. address (info t) = address d then (Threw AlreadyExists, s)
        else if Some (chainId d) \<noteq> chainId_var s
          then (Returned, s\<lparr>storage := createCustomToken E d (storage s)\<rparr>)
          else (Returned, s\<lparr>storage := createCustomToken E d (storage s),
                            tokenList := Some (ts @ [Custom d False])\<rparr>))"
  by (auto simp: addCustomToken_def Let_def find_None_iff)

text \<open>
  Claim C2. \<open>addCustomToken d\<close> throws \<open>AlreadyExists\<close> exactly when the entry list is
  present and one of its entries, default or custom, has the address of \<open>d\<close>, the two
  raw strings being equal; the state at the throw, entry list and durable store, is
  the state before the call; and the operation throws nothing else.
\<close>

theorem addCustomToken_AlreadyExists_iff:
  "(fst (addCustomToken E d s) = Threw AlreadyExists \<longleftrightarrow>
      (\<exists>ts. tokenList s = Some ts \<and> (\<exists>t\<in>set ts. address (info t) = address d))) \<and>
   (fst (addCustomToken E d s) = Threw AlreadyExists \<longrightarrow> snd (addCustomToken E d s) = s) \<and>
   (\<forall>e. fst (addCustomToken E d s) = Threw e \<longrightarrow> e = AlreadyExists)"
proof (cases "tokenList s")
  case None
  then show ?thesis by (simp add: addCustomToken_def)
next
  case (Some ts)
  then show ?thesis by (simp add: addCustomToken_connected)
qed

theorem addCustomToken_AlreadyExists_iff_witness:
  "fst (addCustomToken exEnv exFoo (connect exEnv 1 (initial [(exBaz, False)])))
     = Threw AlreadyExists \<and>
   tokenList (connect exEnv 1 (initial [(exBaz, False)])) = Some [Default exFoo] \<and>
   (\<exists>t\<in>set [Default exFoo]. address (info t) = address exFoo) \<and>
   snd (addCustomToken exEnv exFoo (connect exEnv 1 (initial [(exBaz, False)])))
     = connect exEnv 1 (initial [(exBaz, False)])"
proof -
  have h: "tokenList (connect exEnv 1 (initial [(exBaz, False)])) = Some [Default exFoo]"
    by (simp add: connect_def exEnv_def specEnv_def specRead_def initial_def exFoo_def
        exBaz_def wrapCustom_def)
  show ?thesis
    using h addCustomToken_AlreadyExists_iff
      [of exEnv exFoo "connect exEnv 1 (initial [(exBaz, False)])"]
    by simp
qed

text \<open>
  Claim C10. In a connected state on chain \<open>C\<close> and for a descriptor of another chain,
  \<open>addCustomToken\<close> throws \<open>AlreadyExists\<close> exactly when an entry in memory has the same
  raw address, whatever the durable store holds: replacing the durable store by any
  other changes nothing about the outcome. When it does not throw it hands the
  descriptor to \<open>createCustomToken\<close> and leaves the entry list as it is. With a
  persistence module whose \<open>createCustomToken\<close> appends the record
  \<open>{descriptor, banned: false}\<close> to what \<open>readCustomTokensList\<close> returns, the durable
  store then holds that record once more than before, also when it held it already.
\<close>

theorem addCustomToken_other_chain:
  assumes "tokenList s = Some ts" and "chainId_var s = Some C" and "chainId d \<noteq> C"
  shows "addCustomToken E d s =
           (if \<exists>t\<in>set ts. address (info t) = address d then (Threw AlreadyExists, s)
            else (Returned, s\<lparr>storage := createCustomToken E d (storage s)\<rparr>)) \<and>
         (\<forall>st. fst (addCustomToken E d (s\<lparr>storage := st\<rparr>)) = fst (addCustomToken E d s)) \<and>
         ((\<forall>st. readCustomTokensList E (createCustomToken E d st)
                  = readCustomTokensList E st @ [(d, False)]) \<and>
          \<not> (\<exists>t\<in>set ts. address (info t) = address d) \<longrightarrow>
            count_list (readCustomTokensList E (storage (snd (addCustomToken E d s)))) (d, False)
              = Suc (count_list (readCustomTokensList E (storage s)) (d, False)))"
proof -
  have a: "addCustomToken E d s =
           (if \<exists>t\<in>set ts. address (info t) = address d then (Threw AlreadyExists, s)
            else (Returned, s\<lparr>storage := createCustomToken E d (storage s)\<rparr>))"
    using assms by (simp add: addCustomToken_connected)
  have "tokenList (s\<lparr>storage := st\<rparr>) = Some ts" for st
    using assms(1) by simp
  then have b: "fst (addCustomToken E d (s\<lparr>storage := st\<rparr>)) = fst (addCustomToken E d s)" for st
    using assms(1) by (simp add: addCustomToken_connected)
  from a b show ?thesis by simp
qed

theorem addCustomToken_other_chain_witness:
  "tokenList (connect exEnv 1 (initial [(exBaz, False)])) = Some [Default exFoo] \<and>
   chainId_var (connect exEnv 1 (initial [(exBaz, False)])) = Some 1 \<and>
   chainId exBaz \<noteq> 1 \<and>
   readCustomTokensList exEnv (storage (connect exEnv 1 (initial [(exBaz, False)])))
     = [(exBaz, False)] \<and>
   addCustomToken exEnv exBaz (connect exEnv 1 (initial [(exBaz, False)]))
     = (Returned, (connect exEnv 1 (initial [(exBaz, False)]))
          \<lparr>storage := [(exBaz, False), (exBaz, False)]\<rparr>) \<and>
   count_list (readCustomTokensList exEnv
       (storage (snd (addCustomToken exEnv exBaz (connect exEnv 1 (initial [(exBaz, False)]))))))
     (exBaz, False) = 2"
proof -
  have t: "tokenList (connect exEnv 1 (initial [(exBaz, False)])) = Some [Default exFoo]"
    by (simp add: example_defs operation_defs)
  have c: "chainId_var (connect exEnv 1 (initial [(exBaz, False)])) = Some 1"
    by (simp add: connect_def Let_def)
  have d: "chainId exBaz \<noteq> 1"
    by (simp add: exBaz_def)
  have n: "\<not> (\<exists>t\<in>set [Default exFoo]. address (info t) = address exBaz)"
    by (simp add: exFoo_def exBaz_def)
  have l: "\<forall>st. readCustomTokensList exEnv (createCustomToken exEnv exBaz st)
                  = readCustomTokensList exEnv st @ [(exBaz, False)]"
    by (simp add: exEnv_def specEnv_def specRead_def specCreate_def)
  have r: "readCustomTokensList exEnv (storage (connect exEnv 1 (initial [(exBaz, False)])))
     = [(exBaz, False)]"
    by (simp add: exEnv_def specEnv_def specRead_def connect_def initial_def Let_def)
  have k: "createCustomToken exEnv exBaz (storage (connect exEnv 1 (initial [(exBaz, False)])))
     = [(exBaz, False), (exBaz, False)]"
    by (simp add: exEnv_def specEnv_def specCreate_def connect_def initial_def Let_def)
  note T = addCustomToken_other_chain [OF t c d, of exEnv]
  from T n k have a: "addCustomToken exEnv exBaz (connect exEnv 1 (initial [(exBaz, False)]))
     = (Returned, (connect exEnv 1 (initial [(exBaz, False)]))
          \<lparr>storage := [(exBaz, False), (exBaz, False)]\<rparr>)"
    by simp
  from T n l r have "count_list (readCustomTokensList exEnv
       (storage (snd (addCustomToken exEnv exBaz (connect exEnv 1 (initial [(exBaz, False)]))))))
     (exBaz, False) = 2"
    by simp
  with t c d r a show ?thesis by blast
qed

subsection \<open>The lookup by asset id\<close>

lemma find_throwing_total:
  "find_throwing (\<lambda>t. Inr (P t)) ts = Inr (List.find P ts)"
  by (induction ts) auto

lemma find_throwing_fail:
  "find_throwing (\<lambda>t. Inl e) ts = (if ts = [] then Inr None else Inl e)"
  by (cases ts) auto

text \<open>
  Claim C6. For every asset id \<open>n\<close>, given as a string that \<open>BigInt\<close> converts to \<open>n\<close>,
  and every chain argument, \<open>getByDripsAssetId\<close> returns what \<open>getByAddress\<close> returns
  for the address the resolver gives for \<open>n\<close>.
\<close>

theorem getByDripsAssetId_delegates:
  "BigInt E dripsAssetId = Some n \<Longrightarrow>
     getByDripsAssetId E s dripsAssetId chain
       = Inr (getByAddress E s (getAddressFromId E n) chain)"
  by (simp add: getByDripsAssetId_def getByAddress_def Let_def find_throwing_total
      split: option.splits)

theorem getByDripsAssetId_delegates_witness:
  "BigInt exEnv ''5'' = Some 5 \<and>
   getByDripsAssetId exEnv (connect exEnv 1 (initial [(exBar, False)])) ''5'' None
     = Inr (getByAddress exEnv (connect exEnv 1 (initial [(exBar, False)])) ''0xBBB'' None) \<and>
   getByAddress exEnv (connect exEnv 1 (initial [(exBar, False)])) ''0xBBB'' None
     = Some (Custom exBar False)"
proof -
  have h: "BigInt exEnv ''5'' = Some 5"
    by (simp add: exEnv_def specEnv_def)
  have r: "getAddressFromId exEnv 5 = ''0xBBB''"
    by (simp add: exEnv_def specEnv_def)
  have g: "getByAddress exEnv (connect exEnv 1 (initial [(exBar, False)])) ''0xBBB'' None
     = Some (Custom exBar False)"
    by (simp add: getByAddress_def connect_def exEnv_def specEnv_def specRead_def initial_def
        exFoo_def exBar_def wrapCustom_def chainArg_def asciiLowerCase_def asciiLowerChar_def)
  show ?thesis
    using h g r getByDripsAssetId_delegates
      [OF h, of "connect exEnv 1 (initial [(exBar, False)])" None]
    by simp
qed

text \<open>
  A string that \<open>BigInt\<close> rejects makes the callback throw, so the lookup throws as soon
  as there is an entry to visit, and returns not-found on an absent or empty list.
\<close>

lemma getByDripsAssetId_rejected:
  "BigInt E dripsAssetId = None \<Longrightarrow>
     getByDripsAssetId E s dripsAssetId chain =
       (case tokenList s of None \<Rightarrow> Inr None
        | Some ts \<Rightarrow> if ts = [] then Inr None else Inl SyntaxError)"
  by (simp add: getByDripsAssetId_def find_throwing_fail split: option.splits)

subsection \<open>Array functions\<close>

lemma set_splice: "set (splice xs k dc items) \<subseteq> set xs \<union> set items"
  unfolding splice_def Let_def
  using set_take_subset set_drop_subset by fastforce

lemma indexOf_first:
  "List.find P ts = Some t \<Longrightarrow>
     \<exists>k<length ts. indexOf ts t = int k \<and> ts ! k = t \<and> P t \<and> (\<forall>j<k. \<not> P (ts ! j))"
proof (induction ts)
  case Nil
  then show ?case by simp
next
  case (Cons u ts)
  show ?case
  proof (cases "P u")
    case True
    with Cons.prems show ?thesis by auto
  next
    case False
    with Cons.prems have "List.find P ts = Some t" by simp
    from Cons.IH [OF this] obtain k where k: "k < length ts" "indexOf ts t = int k"
      "ts ! k = t" "P t" "\<forall>j<k. \<not> P (ts ! j)" by blast
    from False k(4) have "u \<noteq> t" by auto
    with k False have "Suc k < length (u # ts) \<and> indexOf (u # ts) t = int (Suc k) \<and>
      (u # ts) ! Suc k = t \<and> P t \<and> (\<forall>j<Suc k. \<not> P ((u # ts) ! j))"
      by (auto simp: less_Suc_eq_0_disj)
    then show ?thesis by blast
  qed
qed

lemma splice_replace:
  "k < length ts \<Longrightarrow> splice ts (int k) (Suc 0) [x] = ts[k := x]"
  by (simp add: splice_def Let_def upd_conv_take_nth_drop min_def)

subsection \<open>Removing and banning on a connected store\<close>

lemma removeCustomToken_connected:
  "tokenList s = Some ts \<Longrightarrow>
     removeCustomToken E addr chain s =
       (case List.find (matchesAddress E addr (Some chain)) ts of
          None \<Rightarrow> (Threw NotFound, s)
        | Some (Default i) \<Rightarrow> (Threw NotFound, s)
        | Some (Custom i b) \<Rightarrow>
            (Returned,
             s\<lparr>storage := deleteCustomToken E (i, b) (storage s),
               tokenList := Some (filter (\<lambda>v. toLowerCase E (address (info v))
                                              \<noteq> toLowerCase E (address i)) ts)\<rparr>))"
  by (simp add: removeCustomToken_def getByAddress_find chainArg_def Let_def
      split: option.splits TokenInfoWrapper.splits)

text \<open>A successful ban update replaces the first match, in place.\<close>

lemma setCustomTokenBanStatus_connected:
  assumes "tokenList s = Some ts"
  shows "(case List.find (matchesAddress E addr (Some chain)) ts of
            None \<Rightarrow> setCustomTokenBanStatus E addr chain nb s = (Threw NotFound, s)
          | Some (Default i) \<Rightarrow> setCustomTokenBanStatus E addr chain nb s = (Threw NotFound, s)
          | Some (Custom i b) \<Rightarrow>
              (\<exists>k<length ts. ts ! k = Custom i b \<and>
                 matchesAddress E addr (Some chain) (Custom i b) \<and>
                 (\<forall>j<k. \<not> matchesAddress E addr (Some chain) (ts ! j)) \<and>
                 setCustomTokenBanStatus E addr chain nb s =
                   (Returned,
                    s\<lparr>storage := updateCustomToken E addr (i, nb) (storage s),
                      tokenList := Some (ts[k := Custom i nb])\<rparr>)))"
proof (cases "List.find (matchesAddress E addr (Some chain)) ts")
  case None
  with assms show ?thesis
    by (simp add: setCustomTokenBanStatus_def getByAddress_find chainArg_def)
next
  case (Some t)
  show ?thesis
  proof (cases t)
    case (Default i)
    with Some assms show ?thesis
      by (simp add: setCustomTokenBanStatus_def getByAddress_find chainArg_def)
  next
    case (Custom i b)
    from indexOf_first [OF Some] obtain k where k: "k < length ts" "indexOf ts t = int k"
      "ts ! k = t" "matchesAddress E addr (Some chain) t"
      "\<forall>j<k. \<not> matchesAddress E addr (Some chain) (ts ! j)" by blast
    have "setCustomTokenBanStatus E addr chain nb s =
        (Returned, s\<lparr>storage := updateCustomToken E addr (i, nb) (storage s),
                      tokenList := Some (ts[k := Custom i nb])\<rparr>)"
      using assms Some Custom k(1,2)
      by (simp add: setCustomTokenBanStatus_def getByAddress_find chainArg_def Let_def
          splice_replace)
    with k Custom Some show ?thesis by auto
  qed
qed

subsection \<open>The invariant of connected states\<close>

lemma source_cases: "source t = ''default'' \<or> source t = ''custom''"
  by (cases t) simp_all

lemma source_Custom_iff: "source t = ''custom'' \<longleftrightarrow> (\<exists>i b. t = Custom i b)"
  by (cases t) simp_all

lemma source_Default_iff: "source t = ''default'' \<longleftrightarrow> (\<exists>i. t = Default i)"
  by (cases t) simp_all

lemma defaultsFirst_nth:
  "defaultsFirst ts \<longleftrightarrow>
     (\<forall>i j. i < j \<longrightarrow> j < length ts \<longrightarrow> source (ts ! i) = ''custom''
        \<longrightarrow> source (ts ! j) = ''custom'')"
  by (simp add: defaultsFirst_def sorted_wrt_map sorted_wrt_iff_nth_less)

lemma defaultsFirst_defaults: "defaultsFirst (map Default xs)"
  by (simp add: defaultsFirst_nth)

lemma defaultsFirst_append_customs:
  "defaultsFirst ts \<Longrightarrow> \<forall>c\<in>set cs. source c = ''custom'' \<Longrightarrow> defaultsFirst (ts @ cs)"
proof -
  assume a: "defaultsFirst ts" "\<forall>c\<in>set cs. source c = ''custom''"
  have "sorted_wrt (\<lambda>a b. a = ''custom'' \<longrightarrow> b = ''custom'') (map source cs)"
    using a(2) by (simp add: sorted_wrt_map sorted_wrt_iff_nth_less)
  with a show ?thesis
    by (simp add: defaultsFirst_def sorted_wrt_append)
qed

lemma defaultsFirst_filter: "defaultsFirst ts \<Longrightarrow> defaultsFirst (filter P ts)"
  by (simp add: defaultsFirst_def sorted_wrt_map sorted_wrt_filter)

lemma defaultsFirst_update:
  "defaultsFirst ts \<Longrightarrow> k < length ts \<Longrightarrow> source x = source (ts ! k)
     \<Longrightarrow> defaultsFirst (ts[k := x])"
proof -
  assume a: "defaultsFirst ts" "k < length ts" "source x = source (ts ! k)"
  then have "map source (ts[k := x]) = map source ts"
    by (simp add: map_update list_update_same_conv)
  with a(1) show ?thesis by (simp add: defaultsFirst_def)
qed

lemma onChain_set: "onChain C ts \<longleftrightarrow> (\<forall>t\<in>set ts. chainId (info t) = C)"
  by (simp add: onChain_def list_all_iff)

lemma connect_wellFormed: "wellFormed C (connect E C s)"
proof -
  have "defaultsFirst (map Default xs @ map wrapCustom ys)" for xs ys
    by (rule defaultsFirst_append_customs [OF defaultsFirst_defaults])
      (auto simp: wrapCustom_def)
  moreover have "onChain C (map Default (filter (\<lambda>t. chainId t = C) xs)
      @ map wrapCustom (filter (\<lambda>t. chainId (fst t) = C) ys))" for xs ys
    by (auto simp: onChain_set wrapCustom_def)
  moreover have "onChain C (map Default (filter (\<lambda>t. chainId t = C) xs))" for xs
    by (auto simp: onChain_set)
  moreover have "defaultsFirst (map Default xs)" for xs
    by (rule defaultsFirst_defaults)
  ultimately show ?thesis
    by (cases "browser E") (simp_all add: wellFormed_def connect_def Let_def)
qed

lemma addCustomToken_wellFormed:
  "wellFormed C s \<Longrightarrow> wellFormed C (snd (addCustomToken E d s))"
  by (auto simp: wellFormed_def addCustomToken_connected onChain_set
      defaultsFirst_append_customs split: option.splits)

lemma removeCustomToken_wellFormed:
  "wellFormed C s \<Longrightarrow> wellFormed C (snd (removeCustomToken E addr chain s))"
  by (auto simp: wellFormed_def removeCustomToken_connected onChain_set
      defaultsFirst_filter split: option.splits TokenInfoWrapper.splits)

lemma setCustomTokenBanStatus_wellFormed:
  assumes "wellFormed C s"
  shows "wellFormed C (snd (setCustomTokenBanStatus E addr chain nb s))"
proof -
  from assms obtain ts where ts: "tokenList s = Some ts" "chainId_var s = Some C"
    "onChain C ts" "defaultsFirst ts"
    by (auto simp: wellFormed_def split: option.splits)
  show ?thesis
  proof (cases "List.find (matchesAddress E addr (Some chain)) ts")
    case None
    with setCustomTokenBanStatus_connected [OF ts(1), where addr=addr and chain=chain and E=E and nb=nb] assms
    show ?thesis by simp
  next
    case (Some t)
    show ?thesis
    proof (cases t)
      case (Default i)
      with Some setCustomTokenBanStatus_connected [OF ts(1), where addr=addr and chain=chain and E=E and nb=nb] assms
      show ?thesis by simp
    next
      case (Custom i b)
      with Some setCustomTokenBanStatus_connected [OF ts(1), where addr=addr and chain=chain and E=E and nb=nb]
      obtain k where k: "k < length ts" "ts ! k = Custom i b"
        "setCustomTokenBanStatus E addr chain nb s =
           (Returned, s\<lparr>storage := updateCustomToken E addr (i, nb) (storage s),
                         tokenList := Some (ts[k := Custom i nb])\<rparr>)"
        by auto
      from k(1,2) ts(3) have "chainId i = C"
        by (metis TokenInfoWrapper.sel(2) nth_mem onChain_set)
      with ts(3) have "onChain C (ts[k := Custom i nb])"
        using set_update_subset_insert [of ts k "Custom i nb"]
        by (auto simp: onChain_set)
      moreover have "defaultsFirst (ts[k := Custom i nb])"
        using ts(4) k(1,2) by (simp add: defaultsFirst_update)
      ultimately show ?thesis using k(3) ts(2) by (simp add: wellFormed_def)
    qed
  qed
qed

lemma perform_wellFormed: "wellFormed C s \<Longrightarrow> wellFormed C (perform E c s)"
  by (cases c)
    (simp_all add: addCustomToken_wellFormed removeCustomToken_wellFormed
      setCustomTokenBanStatus_wellFormed)

lemma performAll_wellFormed: "wellFormed C s \<Longrightarrow> wellFormed C (performAll E cs s)"
  by (induction cs arbitrary: s) (simp_all add: perform_wellFormed)

lemma reachable_wellFormed: "wellFormed C (performAll E cs (connect E C s))"
  by (rule performAll_wellFormed [OF connect_wellFormed])

subsection \<open>The chain of the entries\<close>

text \<open>
  Claim C3. For every chain id \<open>C\<close>, after \<open>connect C\<close> from any state and any sequence
  of \<open>addCustomToken\<close>, \<open>removeCustomToken\<close> and \<open>setCustomTokenBanStatus\<close> calls,
  failing or not, the entry list is present and each of its entries has chain id \<open>C\<close>.
\<close>

theorem entries_on_connected_chain:
  "\<exists>ts. tokenList (performAll E calls (connect E C s)) = Some ts \<and>
        (\<forall>t\<in>set ts. chainId (info t) = C)"
  using reachable_wellFormed [of C E calls s]
  by (auto simp: wellFormed_def onChain_set split: option.splits)

theorem entries_on_connected_chain_witness:
  "tokenList (performAll exEnv
      [AddCustomToken exBaz, AddCustomToken exBar,
       SetCustomTokenBanStatus ''0xbbb'' 1 True, RemoveCustomToken ''0xAAA'' 1]
      (connect exEnv 1 (initial [])))
     = Some [Default exFoo, Custom exBar True] \<and>
   chainId (info (Default exFoo)) = 1 \<and> chainId (info (Custom exBar True)) = 1"
proof -
  have e: "tokenList (performAll exEnv
      [AddCustomToken exBaz, AddCustomToken exBar,
       SetCustomTokenBanStatus ''0xbbb'' 1 True, RemoveCustomToken ''0xAAA'' 1]
      (connect exEnv 1 (initial [])))
     = Some [Default exFoo, Custom exBar True]"
    by (simp add: example_defs operation_defs)
  show ?thesis
    using e entries_on_connected_chain [of exEnv
      "[AddCustomToken exBaz, AddCustomToken exBar,
       SetCustomTokenBanStatus ''0xbbb'' 1 True, RemoveCustomToken ''0xAAA'' 1]" 1 "initial []"]
    by simp
qed

subsection \<open>The ban status\<close>

lemma find_update_first:
  assumes "k < length ts" "P x" "\<forall>j<k. \<not> P (ts ! j)"
  shows "List.find P (ts[k := x]) = Some x"
  using assms by (auto simp: find_Some_iff intro!: exI [of _ k])

lemma setCustomTokenBanStatus_then_get:
  assumes "getByAddress E s addr (Some C) = Some (Custom i b)"
  shows "fst (setCustomTokenBanStatus E addr C nb s) = Returned \<and>
         getByAddress E (snd (setCustomTokenBanStatus E addr C nb s)) addr (Some C)
           = Some (Custom i nb)"
proof -
  from assms obtain ts where ts: "tokenList s = Some ts"
    "List.find (matchesAddress E addr (Some C)) ts = Some (Custom i b)"
    by (auto simp: getByAddress_find chainArg_def split: option.splits)
  with setCustomTokenBanStatus_connected [OF ts(1), where addr=addr and chain=C and E=E and nb=nb]
  obtain k where k: "k < length ts" "ts ! k = Custom i b"
    "matchesAddress E addr (Some C) (Custom i b)"
    "\<forall>j<k. \<not> matchesAddress E addr (Some C) (ts ! j)"
    "setCustomTokenBanStatus E addr C nb s =
       (Returned, s\<lparr>storage := updateCustomToken E addr (i, nb) (storage s),
                     tokenList := Some (ts[k := Custom i nb])\<rparr>)"
    by auto
  from k(3) have "matchesAddress E addr (Some C) (Custom i nb)"
    by (simp add: matchesAddress_def)
  from find_update_first [OF k(1) this k(4)] k(5) show ?thesis
    by (simp add: getByAddress_find chainArg_def)
qed

text \<open>
  Claim C7. When \<open>getByAddress addr C\<close> finds a custom entry, setting its ban status to
  true returns and the same lookup then finds that entry banned; setting it to false
  afterwards returns and the lookup finds it not banned.
\<close>

theorem ban_status_roundtrip:
  assumes "getByAddress E s addr (Some C) = Some (Custom i b)"
  shows "fst (setCustomTokenBanStatus E addr C True s) = Returned \<and>
         getByAddress E (snd (setCustomTokenBanStatus E addr C True s)) addr (Some C)
           = Some (Custom i True) \<and>
         fst (setCustomTokenBanStatus E addr C False
                (snd (setCustomTokenBanStatus E addr C True s))) = Returned \<and>
         getByAddress E
           (snd (setCustomTokenBanStatus E addr C False
                   (snd (setCustomTokenBanStatus E addr C True s)))) addr (Some C)
           = Some (Custom i False)"
proof -
  note first = setCustomTokenBanStatus_then_get [OF assms, of True]
  from first have "getByAddress E (snd (setCustomTokenBanStatus E addr C True s)) addr (Some C)
    = Some (Custom i True)" by simp
  from setCustomTokenBanStatus_then_get [OF this, of False] first show ?thesis by simp
qed

theorem ban_status_roundtrip_witness:
  "getByAddress exEnv (connect exEnv 1 (initial [(exBar, False)])) ''0xbbb'' (Some 1)
     = Some (Custom exBar False) \<and>
   getByAddress exEnv (snd (setCustomTokenBanStatus exEnv ''0xbbb'' 1 True
       (connect exEnv 1 (initial [(exBar, False)])))) ''0xbbb'' (Some 1)
     = Some (Custom exBar True) \<and>
   getByAddress exEnv
     (snd (setCustomTokenBanStatus exEnv ''0xbbb'' 1 False
        (snd (setCustomTokenBanStatus exEnv ''0xbbb'' 1 True
           (connect exEnv 1 (initial [(exBar, False)])))))) ''0xbbb'' (Some 1)
     = Some (Custom exBar False)"
proof -
  have h: "getByAddress exEnv (connect exEnv 1 (initial [(exBar, False)])) ''0xbbb'' (Some 1)
     = Some (Custom exBar False)"
    by (simp add: example_defs operation_defs)
  show ?thesis
    using h ban_status_roundtrip [OF h] by simp
qed

subsection \<open>Removal and the default entries\<close>

lemma removeCustomToken_keeps_defaults:
  assumes wf: "wellFormed C s" and ts: "tokenList s = Some ts"
    and ts': "tokenList (snd (removeCustomToken E addr chain s)) = Some ts'"
  shows "defaultsOf ts' = defaultsOf ts"
proof (cases "List.find (matchesAddress E addr (Some chain)) ts")
  case None
  with removeCustomToken_connected [OF ts, of E addr chain] ts ts' show ?thesis by simp
next
  case (Some t)
  show ?thesis
  proof (cases t)
    case (Default i)
    with Some removeCustomToken_connected [OF ts, of E addr chain] ts ts' show ?thesis by simp
  next
    case (Custom i b)
    from wf ts have oc: "onChain C ts" and df: "defaultsFirst ts"
      by (simp_all add: wellFormed_def)
    from Some Custom obtain k where k: "k < length ts" "ts ! k = Custom i b"
      "matchesAddress E addr (Some chain) (Custom i b)"
      "\<forall>j<k. \<not> matchesAddress E addr (Some chain) (ts ! j)"
      by (auto simp: find_Some_iff)
    from k(1,2) oc have ci: "chainId i = C"
      by (metis TokenInfoWrapper.sel(2) nth_mem onChain_set)
    have keep: "toLowerCase E (address (info v)) \<noteq> toLowerCase E (address i)"
      if v: "v \<in> set ts" "source v = ''default''" for v
    proof
      assume eq: "toLowerCase E (address (info v)) = toLowerCase E (address i)"
      from v(1) obtain m where m: "m < length ts" "ts ! m = v"
        by (auto simp: in_set_conv_nth)
      from v(1) oc have "chainId (info v) = C" by (simp add: onChain_set)
      with eq k(3) ci have "matchesAddress E addr (Some chain) v"
        by (simp add: matchesAddress_def)
      with k(4) m have "\<not> m < k" by auto
      moreover from m k(2) v(2) have "m \<noteq> k" by auto
      ultimately have "k < m" by simp
      with df m(1) k(2) have "source (ts ! m) = ''custom''"
        by (auto simp: defaultsFirst_nth)
      with m(2) v(2) show False by simp
    qed
    from Some Custom removeCustomToken_connected [OF ts, of E addr chain] ts'
    have "ts' = filter (\<lambda>v. toLowerCase E (address (info v)) \<noteq> toLowerCase E (address i)) ts"
      by simp
    then show ?thesis
      using keep by (auto simp: defaultsOf_def intro: filter_cong)
  qed
qed

text \<open>
  Claim C5. In a connected state \<open>removeCustomToken addr chain\<close> throws \<open>NotFound\<close>
  exactly when \<open>getByAddress addr chain\<close> finds nothing or finds a default entry, and
  the state at the throw, entry list and durable store, is the state before the call.
  In every state reached by \<open>connect\<close> and a sequence of calls, no call of
  \<open>removeCustomToken\<close> changes the default entries of the list.
\<close>

theorem removeCustomToken_NotFound:
  "(tokenList s = Some ts \<longrightarrow>
      (fst (removeCustomToken E addr chain s) = Threw NotFound \<longleftrightarrow>
         getByAddress E s addr (Some chain) = None \<or>
         (\<exists>i. getByAddress E s addr (Some chain) = Some (Default i))) \<and>
      (fst (removeCustomToken E addr chain s) = Threw NotFound \<longrightarrow>
         snd (removeCustomToken E addr chain s) = s)) \<and>
   (\<forall>us us'.
      tokenList (performAll E calls (connect E C s0)) = Some us \<and>
      tokenList (snd (removeCustomToken E addr chain (performAll E calls (connect E C s0))))
        = Some us' \<longrightarrow>
      defaultsOf us' = defaultsOf us)"
proof -
  have "defaultsOf us' = defaultsOf us"
    if "tokenList (performAll E calls (connect E C s0)) = Some us"
      "tokenList (snd (removeCustomToken E addr chain (performAll E calls (connect E C s0))))
        = Some us'" for us us'
    using removeCustomToken_keeps_defaults [OF reachable_wellFormed that] .
  moreover have "tokenList s = Some ts \<longrightarrow>
      (fst (removeCustomToken E addr chain s) = Threw NotFound \<longleftrightarrow>
         getByAddress E s addr (Some chain) = None \<or>
         (\<exists>i. getByAddress E s addr (Some chain) = Some (Default i))) \<and>
      (fst (removeCustomToken E addr chain s) = Threw NotFound \<longrightarrow>
         snd (removeCustomToken E addr chain s) = s)"
    by (auto simp: removeCustomToken_connected getByAddress_find chainArg_def
        split: option.splits TokenInfoWrapper.splits)
  ultimately show ?thesis by blast
qed

theorem removeCustomToken_NotFound_witness:
  "tokenList (connect exEnv 1 (initial [(exBar, False)]))
     = Some [Default exFoo, Custom exBar False] \<and>
   getByAddress exEnv (connect exEnv 1 (initial [(exBar, False)])) ''0xaaa'' (Some 1)
     = Some (Default exFoo) \<and>
   fst (removeCustomToken exEnv ''0xaaa'' 1 (connect exEnv 1 (initial [(exBar, False)])))
     = Threw NotFound \<and>
   snd (removeCustomToken exEnv ''0xaaa'' 1 (connect exEnv 1 (initial [(exBar, False)])))
     = connect exEnv 1 (initial [(exBar, False)]) \<and>
   tokenList (snd (removeCustomToken exEnv ''0xbbb'' 1
      (performAll exEnv [] (connect exEnv 1 (initial [(exBar, False)])))))
     = Some [Default exFoo] \<and>
   defaultsOf [Default exFoo] = defaultsOf [Default exFoo, Custom exBar False]"
proof -
  have t: "tokenList (connect exEnv 1 (initial [(exBar, False)]))
     = Some [Default exFoo, Custom exBar False]"
    by (simp add: example_defs operation_defs)
  have g: "getByAddress exEnv (connect exEnv 1 (initial [(exBar, False)])) ''0xaaa'' (Some 1)
     = Some (Default exFoo)"
    by (simp add: example_defs operation_defs)
  have r: "tokenList (snd (removeCustomToken exEnv ''0xbbb'' 1
      (performAll exEnv [] (connect exEnv 1 (initial [(exBar, False)])))))
     = Some [Default exFoo]"
    by (simp add: example_defs operation_defs)
  have p: "tokenList (performAll exEnv [] (connect exEnv 1 (initial [(exBar, False)])))
     = Some [Default exFoo, Custom exBar False]"
    using t by simp
  note T = removeCustomToken_NotFound [of "connect exEnv 1 (initial [(exBar, False)])"
        "[Default exFoo, Custom exBar False]" exEnv _ 1 "[]" 1 "initial [(exBar, False)]"]
  from T [of "''0xaaa''"] t g
  have a: "fst (removeCustomToken exEnv ''0xaaa'' 1 (connect exEnv 1 (initial [(exBar, False)])))
     = Threw NotFound"
    "snd (removeCustomToken exEnv ''0xaaa'' 1 (connect exEnv 1 (initial [(exBar, False)])))
     = connect exEnv 1 (initial [(exBar, False)])"
    by blast+
  from T [of "''0xbbb''"] p r
  have d: "defaultsOf [Default exFoo] = defaultsOf [Default exFoo, Custom exBar False]"
    by blast
  from t g a r d show ?thesis by blast
qed

subsection \<open>The lookup by symbol\<close>

text \<open>
  Claim C9. On a present entry list \<open>getBySymbol symbol chain\<close> returns not-found exactly
  when no entry has both a symbol whose lower-casing equals the lower-casing of
  \<open>symbol\<close> and the chain id \<open>chain\<close> itself (the connected chain when \<open>chain\<close> is
  omitted); otherwise it returns the entry at the least index that has both. Two
  queries with the same lower-casing return the same result. In every state reached by
  \<open>connect\<close> and a sequence of calls the list has its defaults before its customs:
  after a custom entry there are only custom entries.
\<close>

theorem getBySymbol_first_match:
  "(tokenList s = Some ts \<longrightarrow>
      (getBySymbol E s symb chain = None \<longleftrightarrow>
         (\<forall>t\<in>set ts.
            toLowerCase E (symbol (info t)) \<noteq> toLowerCase E symb \<or>
            Some (chainId (info t)) \<noteq> (case chain of None \<Rightarrow> chainId_var s | Some c \<Rightarrow> Some c))) \<and>
      (\<forall>t. getBySymbol E s symb chain = Some t \<longleftrightarrow>
         (\<exists>i<length ts. ts ! i = t \<and>
            toLowerCase E (symbol (info t)) = toLowerCase E symb \<and>
            Some (chainId (info t)) = (case chain of None \<Rightarrow> chainId_var s | Some c \<Rightarrow> Some c) \<and>
            (\<forall>j<i. toLowerCase E (symbol (info (ts ! j))) \<noteq> toLowerCase E symb \<or>
                   Some (chainId (info (ts ! j)))
                     \<noteq> (case chain of None \<Rightarrow> chainId_var s | Some c \<Rightarrow> Some c))))) \<and>
   (toLowerCase E symb = toLowerCase E symb' \<longrightarrow>
      getBySymbol E s symb chain = getBySymbol E s symb' chain) \<and>
   (\<forall>us. tokenList (performAll E calls (connect E C s0)) = Some us \<longrightarrow>
      (\<forall>i j. i < j \<and> j < length us \<and> source (us ! i) = ''custom''
         \<longrightarrow> source (us ! j) = ''custom''))"
proof -
  have order: "\<forall>i j. i < j \<and> j < length us \<and> source (us ! i) = ''custom''
         \<longrightarrow> source (us ! j) = ''custom''"
    if "tokenList (performAll E calls (connect E C s0)) = Some us" for us
    using reachable_wellFormed [of C E calls s0] that
    by (auto simp: wellFormed_def defaultsFirst_nth)
  have scan: "tokenList s = Some ts \<longrightarrow>
      (getBySymbol E s symb chain = None \<longleftrightarrow>
         (\<forall>t\<in>set ts.
            toLowerCase E (symbol (info t)) \<noteq> toLowerCase E symb \<or>
            Some (chainId (info t)) \<noteq> (case chain of None \<Rightarrow> chainId_var s | Some c \<Rightarrow> Some c))) \<and>
      (\<forall>t. getBySymbol E s symb chain = Some t \<longleftrightarrow>
         (\<exists>i<length ts. ts ! i = t \<and>
            toLowerCase E (symbol (info t)) = toLowerCase E symb \<and>
            Some (chainId (info t)) = (case chain of None \<Rightarrow> chainId_var s | Some c \<Rightarrow> Some c) \<and>
            (\<forall>j<i. toLowerCase E (symbol (info (ts ! j))) \<noteq> toLowerCase E symb \<or>
                   Some (chainId (info (ts ! j)))
                     \<noteq> (case chain of None \<Rightarrow> chainId_var s | Some c \<Rightarrow> Some c))))"
    by (auto simp: getBySymbol_def chainArg_def Let_def find_None_iff find_Some_iff)
  have query: "toLowerCase E symb = toLowerCase E symb' \<longrightarrow>
      getBySymbol E s symb chain = getBySymbol E s symb' chain"
    by (auto simp: getBySymbol_def Let_def split: option.splits)
  from order scan query show ?thesis by blast
qed

theorem getBySymbol_first_match_witness:
  "tokenList (connect exEnv 1 (initial [(exBar, False), (exFooLower, False)]))
     = Some [Default exFoo, Custom exBar False, Custom exFooLower False] \<and>
   toLowerCase exEnv ''bar'' = toLowerCase exEnv (symbol exBar) \<and>
   toLowerCase exEnv ''bar'' \<noteq> toLowerCase exEnv (symbol exFoo) \<and>
   getBySymbol exEnv (connect exEnv 1 (initial [(exBar, False), (exFooLower, False)]))
       ''bar'' None
     = Some (Custom exBar False) \<and>
   getBySymbol exEnv (connect exEnv 1 (initial [(exBar, False), (exFooLower, False)]))
       ''Foo'' (Some 1)
     = Some (Default exFoo) \<and>
   getBySymbol exEnv (connect exEnv 1 (initial [(exBar, False), (exFooLower, False)]))
       ''foo'' (Some 2)
     = None \<and>
   getBySymbol exEnv (connect exEnv 1 (initial [(exBar, False), (exFooLower, False)]))
       ''baz'' None
     = None"
proof -
  have t: "tokenList (connect exEnv 1 (initial [(exBar, False), (exFooLower, False)]))
     = Some [Default exFoo, Custom exBar False, Custom exFooLower False]"
    by (simp add: example_defs operation_defs)
  have c: "chainId_var (connect exEnv 1 (initial [(exBar, False), (exFooLower, False)])) = Some 1"
    by (simp add: connect_def Let_def)
  have l: "toLowerCase exEnv ''bar'' = toLowerCase exEnv (symbol exBar)"
    "toLowerCase exEnv ''bar'' \<noteq> toLowerCase exEnv (symbol exFoo)"
    "toLowerCase exEnv ''Foo'' = toLowerCase exEnv (symbol exFoo)"
    "toLowerCase exEnv ''foo'' = toLowerCase exEnv (symbol exFoo)"
    "toLowerCase exEnv ''foo'' = toLowerCase exEnv (symbol exFooLower)"
    "toLowerCase exEnv ''foo'' \<noteq> toLowerCase exEnv (symbol exBar)"
    "toLowerCase exEnv ''baz'' \<noteq> toLowerCase exEnv (symbol exFoo)"
    "toLowerCase exEnv ''baz'' \<noteq> toLowerCase exEnv (symbol exBar)"
    "toLowerCase exEnv ''baz'' \<noteq> toLowerCase exEnv (symbol exFooLower)"
    by (simp_all add: example_defs asciiLowerCase_def asciiLowerChar_def)
  have n: "chainId exFoo = 1" "chainId exBar = 1" "chainId exFooLower = 1"
    by (simp_all add: example_defs)
  note T = getBySymbol_first_match
    [where s="connect exEnv 1 (initial [(exBar, False), (exFooLower, False)])"
       and ts="[Default exFoo, Custom exBar False, Custom exFooLower False]" and E=exEnv
       and calls="[]" and C=1 and ?s0.0="initial [(exBar, False), (exFooLower, False)]"]
  have bar: "getBySymbol exEnv (connect exEnv 1 (initial [(exBar, False), (exFooLower, False)]))
       ''bar'' None = Some (Custom exBar False)"
  proof -
    have "\<exists>i<length [Default exFoo, Custom exBar False, Custom exFooLower False].
        [Default exFoo, Custom exBar False, Custom exFooLower False] ! i = Custom exBar False \<and>
        toLowerCase exEnv (symbol (info (Custom exBar False))) = toLowerCase exEnv ''bar'' \<and>
        Some (chainId (info (Custom exBar False)))
          = (case None of None \<Rightarrow>
               chainId_var (connect exEnv 1 (initial [(exBar, False), (exFooLower, False)]))
             | Some c \<Rightarrow> Some c) \<and>
        (\<forall>j<i. toLowerCase exEnv
                  (symbol (info ([Default exFoo, Custom exBar False, Custom exFooLower False] ! j)))
                  \<noteq> toLowerCase exEnv ''bar'' \<or>
               Some (chainId
                  (info ([Default exFoo, Custom exBar False, Custom exFooLower False] ! j)))
                 \<noteq> (case None of None \<Rightarrow>
                      chainId_var (connect exEnv 1 (initial [(exBar, False), (exFooLower, False)]))
                    | Some c \<Rightarrow> Some c))"
      using l c n by (intro exI [of _ 1]) simp
    with T [where symb="''bar''" and chain=None] t show ?thesis by blast
  qed
  have foo1: "getBySymbol exEnv (connect exEnv 1 (initial [(exBar, False), (exFooLower, False)]))
       ''Foo'' (Some 1) = Some (Default exFoo)"
    by (simp add: example_defs operation_defs)
  have foo2: "getBySymbol exEnv (connect exEnv 1 (initial [(exBar, False), (exFooLower, False)]))
       ''foo'' (Some 2) = None"
  proof -
    have "\<forall>t\<in>set [Default exFoo, Custom exBar False, Custom exFooLower False].
        toLowerCase exEnv (symbol (info t)) \<noteq> toLowerCase exEnv ''foo'' \<or>
        Some (chainId (info t))
          \<noteq> (case Some 2 of None \<Rightarrow>
                chainId_var (connect exEnv 1 (initial [(exBar, False), (exFooLower, False)]))
              | Some c \<Rightarrow> Some c)"
      using n by simp
    with T [where symb="''foo''" and chain="Some 2"] t show ?thesis by blast
  qed
  have baz: "getBySymbol exEnv (connect exEnv 1 (initial [(exBar, False), (exFooLower, False)]))
       ''baz'' None = None"
    by (simp add: example_defs operation_defs)
  from t l(1,2) bar foo1 foo2 baz show ?thesis by blast
qed

subsection \<open>Disconnecting and connecting again\<close>









subsection \<open>Uniqueness of the entries\<close>

text \<open>
  Removal and the ban update keep the pairs of lower-cased address and chain distinct,
  and so does an addition whose lower-cased address is new.
\<close>

lemma removeCustomToken_uniqueKeys:
  assumes "tokenList s = Some ts" and "uniqueKeys E ts"
    and "tokenList (snd (removeCustomToken E addr chain s)) = Some ts'"
  shows "uniqueKeys E ts'"
  using assms
  by (auto simp: removeCustomToken_connected uniqueKeys_def distinct_map_filter
      split: option.splits TokenInfoWrapper.splits)

lemma setCustomTokenBanStatus_uniqueKeys:
  assumes ts: "tokenList s = Some ts" and u: "uniqueKeys E ts"
    and ts': "tokenList (snd (setCustomTokenBanStatus E addr chain nb s)) = Some ts'"
  shows "uniqueKeys E ts'"
proof (cases "List.find (matchesAddress E addr (Some chain)) ts")
  case None
  with setCustomTokenBanStatus_connected [OF ts, where addr=addr and chain=chain and E=E and nb=nb]
    ts ts' u show ?thesis by simp
next
  case (Some t)
  show ?thesis
  proof (cases t)
    case (Default i)
    with Some setCustomTokenBanStatus_connected
      [OF ts, where addr=addr and chain=chain and E=E and nb=nb] ts ts' u
    show ?thesis by simp
  next
    case (Custom i b)
    with Some setCustomTokenBanStatus_connected
      [OF ts, where addr=addr and chain=chain and E=E and nb=nb]
    obtain k where k: "k < length ts" "ts ! k = Custom i b"
      "setCustomTokenBanStatus E addr chain nb s =
         (Returned, s\<lparr>storage := updateCustomToken E addr (i, nb) (storage s),
                       tokenList := Some (ts[k := Custom i nb])\<rparr>)"
      by auto
    from k(1,2) have "map (entryKey E) (ts[k := Custom i nb]) = map (entryKey E) ts"
      by (simp add: map_update list_update_same_conv entryKey_def)
    with u k(3) ts' show ?thesis by (simp add: uniqueKeys_def)
  qed
qed

lemma addCustomToken_uniqueKeys:
  assumes "tokenList s = Some ts" and "uniqueKeys E ts"
    and "\<forall>t\<in>set ts. toLowerCase E (address (info t)) \<noteq> toLowerCase E (address d)"
    and "tokenList (snd (addCustomToken E d s)) = Some ts'"
  shows "uniqueKeys E ts'"
proof -
  from assms(3) have fresh: "entryKey E (Custom d False) \<notin> entryKey E ` set ts"
    by (auto simp: entryKey_def)
  from assms(1,4) have "ts' = ts \<or> ts' = ts @ [Custom d False]"
    by (auto simp: addCustomToken_connected split: if_splits)
  with assms(2) fresh show ?thesis
    by (auto simp: uniqueKeys_def)
qed

text \<open>
  Claim C1. The duplicate check of \<open>addCustomToken\<close> compares the raw address strings.
  With the catalogue token \<open>0xAAA\<close> on chain 1 and an empty durable store, \<open>connect 1\<close>
  gives a list with distinct pairs; adding the descriptor \<open>0xaaa\<close> of chain 1 returns,
  and the list then holds a default and a custom entry with one and the same pair of
  lower-cased address and chain.
\<close>

theorem addCustomToken_case_variant:
  "tokenList (connect exEnv 1 (initial [])) = Some [Default exFoo] \<and>
   uniqueKeys exEnv [Default exFoo] \<and>
   fst (addCustomToken exEnv exFooLower (connect exEnv 1 (initial []))) = Returned \<and>
   tokenList (snd (addCustomToken exEnv exFooLower (connect exEnv 1 (initial []))))
     = Some [Default exFoo, Custom exFooLower False] \<and>
   entryKey exEnv (Default exFoo) = entryKey exEnv (Custom exFooLower False) \<and>
   \<not> uniqueKeys exEnv [Default exFoo, Custom exFooLower False]"
  by (simp add: example_defs operation_defs uniqueKeys_def entryKey_def)

text \<open>
  The check sees the entries of the connected chain only. With the persistence model
  and the catalogue tokens \<open>0xAAA\<close> of chain 1 and \<open>0xCCC\<close> of chain 2, adding the
  descriptor \<open>0xCCC\<close> of chain 2 while connected to chain 1 returns, and \<open>connect 2\<close>
  then lists that token as a default and as a custom entry.
\<close>

lemma addCustomToken_of_other_chain_default:
  "fst (addCustomToken (specEnv True [exFoo, exBaz] asciiLowerCase (\<lambda>s. None) (\<lambda>n. [])) exBaz
          (connect (specEnv True [exFoo, exBaz] asciiLowerCase (\<lambda>s. None) (\<lambda>n. [])) 1 (initial [])))
     = Returned \<and>
   tokenList
     (connect (specEnv True [exFoo, exBaz] asciiLowerCase (\<lambda>s. None) (\<lambda>n. [])) 2
        (snd (addCustomToken (specEnv True [exFoo, exBaz] asciiLowerCase (\<lambda>s. None) (\<lambda>n. [])) exBaz
           (connect (specEnv True [exFoo, exBaz] asciiLowerCase (\<lambda>s. None) (\<lambda>n. [])) 1 (initial [])))))
     = Some [Default exBaz, Custom exBaz False] \<and>
   \<not> uniqueKeys (specEnv True [exFoo, exBaz] asciiLowerCase (\<lambda>s. None) (\<lambda>n. [])) [Default exBaz, Custom exBaz False]"
  by (simp add: example_defs operation_defs uniqueKeys_def entryKey_def)

end
